theory Spec2Isabelle
  imports Main "HOL-Library.AList"
begin

section \<open>Key fingerprint formatting\<close>

text \<open>
  \<^verbatim>\<open>grouper(iterable, n, fillvalue)\<close> hands \<open>n\<close> references to one shared iterator to
  \<^verbatim>\<open>zip_longest\<close>: every round draws \<open>n\<close> items from the iterator, the missing ones of
  the last round are replaced by the fill value, and a round that finds the iterator
  already exhausted produces nothing. With \<open>n = 0\<close> there is no iterator and no round.
\<close>

function grouper :: "'a list \<Rightarrow> nat \<Rightarrow> 'a \<Rightarrow> 'a list list" where
  "grouper iterable n fillvalue =
     (if n = 0 \<or> iterable = [] then []
      else (take n iterable @ replicate (n - length (take n iterable)) fillvalue)
           # grouper (drop n iterable) n fillvalue)"
  by pat_completeness auto
termination
  by (relation "measure (\<lambda>(iterable, n, fillvalue). length iterable)") auto

declare grouper.simps [simp del]

text \<open>\<^verbatim>\<open>sep.join(parts)\<close> of Python.\<close>

fun join :: "string \<Rightarrow> string list \<Rightarrow> string" where
  "join sep [] = []"
| "join sep [x] = x"
| "join sep (x # y # ys) = x @ sep @ join sep (y # ys)"

text \<open>
  A group is a tuple of one-character strings and \<^verbatim>\<open>''.join(g)\<close> glues them together;
  with characters as elements the group already is that string.
\<close>

definition partition_key :: "string \<Rightarrow> string" where
  "partition_key key = join '' '' (grouper key 4 (CHR '' ''))"

section \<open>Errors, messages and the cryptographic provider\<close>

text \<open>
  The exceptions the module names: the three error classes of the olm library, the
  module's own \<^verbatim>\<open>EncryptionError(error)\<close> that wraps one of them, and the
  \<^verbatim>\<open>TypeError\<close> of subscripting \<^verbatim>\<open>None\<close>.
\<close>

datatype error =
    OlmAccountError
  | OlmSessionError
  | OlmGroupSessionError
  | EncryptionError error
  | TypeError

text \<open>
  A pairwise message is either an \<^verbatim>\<open>OlmPreKeyMessage\<close> or an ordinary
  \<^verbatim>\<open>OlmMessage\<close>; the module tells them apart with \<^verbatim>\<open>isinstance\<close>.
\<close>

datatype message = OlmPreKeyMessage string | OlmMessage string

fun isinstance_OlmPreKeyMessage :: "message \<Rightarrow> bool" where
  "isinstance_OlmPreKeyMessage (OlmPreKeyMessage c) = True"
| "isinstance_OlmPreKeyMessage (OlmMessage c) = False"

text \<open>
  The olm library is imported, not part of the module. Its classes are the parameter
  \<open>P\<close> of every operation below: accounts \<open>'acc\<close>, pairwise sessions \<open>'sess\<close>
  and inbound group sessions \<open>'gs\<close> are opaque, each call either raises (\<open>Inl\<close>) or
  returns (\<open>Inr\<close>), and a call that mutates its object returns the new object. A call
  that raises leaves its object as it was.
\<close>

record ('acc, 'sess, 'gs) provider =
  Account :: "error + 'acc"
  account_pickle :: "'acc \<Rightarrow> error + string"
  account_from_pickle :: "string \<Rightarrow> error + 'acc"
  account_remove_one_time_keys :: "'acc \<Rightarrow> 'sess \<Rightarrow> error + 'acc"
  account_mark_keys_as_published :: "'acc \<Rightarrow> error + 'acc"
  account_sign :: "'acc \<Rightarrow> string \<Rightarrow> error + string"
  InboundSession :: "'acc \<Rightarrow> message \<Rightarrow> string \<Rightarrow> error + 'sess"
  session_id :: "'sess \<Rightarrow> string"
  session_pickle :: "'sess \<Rightarrow> error + string"
  session_from_pickle :: "string \<Rightarrow> error + 'sess"
  session_matches :: "'sess \<Rightarrow> message \<Rightarrow> error + bool"
  session_decrypt :: "'sess \<Rightarrow> message \<Rightarrow> error + string \<times> 'sess"
  InboundGroupSession :: "string \<Rightarrow> error + 'gs"
  group_session_id :: "'gs \<Rightarrow> string"
  group_session_pickle :: "'gs \<Rightarrow> error + string"
  group_session_from_pickle :: "string \<Rightarrow> error + 'gs"
  group_session_decrypt :: "'gs \<Rightarrow> string \<Rightarrow> error + string \<times> 'gs"

section \<open>The sqlite store\<close>

text \<open>
  The three tables, each the list of its rows in insertion order. A table that does not
  exist yet is the empty one: \<^verbatim>\<open>_check_db_tables\<close> creates whatever is missing before
  any row is read or written.
\<close>

record tables =
  t_olmaccount :: "(string \<times> string) list"
  t_olmsessions :: "(string \<times> string \<times> string) list"
  t_inbound_group_sessions :: "(string \<times> string \<times> string) list"

text \<open>
  A connection: what its statements have written so far (\<open>pending\<close>) and what
  \<^verbatim>\<open>commit()\<close> has made durable (\<open>committed\<close>).
\<close>

record database =
  pending :: tables
  committed :: tables

definition execute :: "(tables \<Rightarrow> tables) \<Rightarrow> database \<Rightarrow> database" where
  "execute stmt db = db\<lparr>pending := stmt (pending db)\<rparr>"

definition commit :: "database \<Rightarrow> database" where
  "commit db = db\<lparr>committed := pending db\<rparr>"

text \<open>\<^verbatim>\<open>os.path.join\<close> of two components, and the files \<^verbatim>\<open>sqlite3.connect\<close> opens.\<close>

definition os_path_join :: "string \<Rightarrow> string \<Rightarrow> string" where
  "os_path_join a b =
     (if b \<noteq> [] \<and> hd b = CHR ''/'' then b
      else if a = [] \<or> last a = CHR ''/'' then a @ b
      else a @ ''/'' @ b)"

definition db_path :: "string \<Rightarrow> string \<Rightarrow> string \<Rightarrow> string" where
  "db_path usr dev path = os_path_join path (usr @ ''_'' @ dev @ ''.db'')"

definition sqlite3_connect :: "(string \<Rightarrow> tables) \<Rightarrow> string \<Rightarrow> database" where
  "sqlite3_connect fs path = \<lparr>pending = fs path, committed = fs path\<rparr>"

section \<open>The manager\<close>

text \<open>
  Python dictionaries are association lists in insertion order. Indexing a
  \<^verbatim>\<open>defaultdict\<close> with a key it does not have stores the default under that key.
\<close>

definition defaultdict_getitem :: "'v \<Rightarrow> ('k \<times> 'v) list \<Rightarrow> 'k \<Rightarrow> 'v \<times> ('k \<times> 'v) list" where
  "defaultdict_getitem dflt d k =
     (case map_of d k of Some v \<Rightarrow> (v, d) | None \<Rightarrow> (dflt, d @ [(k, dflt)]))"

type_synonym olm_device_key = "string \<times> string \<times> (string \<times> string) list"

record ('acc, 'sess, 'gs) olm =
  user :: string
  device_id :: string
  session_path :: string
  database :: database
  device_keys :: "(string \<times> olm_device_key list) list"
  account :: 'acc
  sessions :: "(string \<times> 'sess list) list"
  inbound_group_sessions :: "(string \<times> (string \<times> 'gs) list) list"

text \<open>
  The decorator \<^verbatim>\<open>encrypt_enabled\<close>: with the flag off the wrapped function is not
  called and the result is \<^verbatim>\<open>None\<close>, here the value \<open>none\<close> of the result type.
\<close>

definition encrypt_enabled :: "bool \<Rightarrow> 'r \<Rightarrow> 'r \<Rightarrow> 'r" where
  "encrypt_enabled ENCRYPTION none call = (if ENCRYPTION then call else none)"

subsection \<open>Store helpers\<close>

definition insert_acc_to_db ::
  "('acc, 'sess, 'gs) provider \<Rightarrow> ('acc, 'sess, 'gs) olm \<Rightarrow> (error + unit) \<times> ('acc, 'sess, 'gs) olm" where
  "insert_acc_to_db P self =
     (case account_pickle P (account self) of
        Inl e \<Rightarrow> (Inl e, self)
      | Inr pk \<Rightarrow>
          (Inr (), self\<lparr>database := commit (execute
             (\<lambda>t. t\<lparr>t_olmaccount := t_olmaccount t @ [(user self, pk)]\<rparr>) (database self))\<rparr>))"

definition update_acc_in_db ::
  "('acc, 'sess, 'gs) provider \<Rightarrow> ('acc, 'sess, 'gs) olm \<Rightarrow> (error + unit) \<times> ('acc, 'sess, 'gs) olm" where
  "update_acc_in_db P self =
     (case account_pickle P (account self) of
        Inl e \<Rightarrow> (Inl e, self)
      | Inr pk \<Rightarrow>
          (Inr (), self\<lparr>database := commit (execute
             (\<lambda>t. t\<lparr>t_olmaccount :=
                map (\<lambda>(u, p). if u = user self then (u, pk) else (u, p)) (t_olmaccount t)\<rparr>)
             (database self))\<rparr>))"

definition store_session ::
  "('acc, 'sess, 'gs) provider \<Rightarrow> ('acc, 'sess, 'gs) olm \<Rightarrow> string \<Rightarrow> 'sess
   \<Rightarrow> (error + unit) \<times> ('acc, 'sess, 'gs) olm" where
  "store_session P self usr session =
     (case session_pickle P session of
        Inl e \<Rightarrow> (Inl e, self)
      | Inr pk \<Rightarrow>
          (Inr (), self\<lparr>database := commit (execute
             (\<lambda>t. t\<lparr>t_olmsessions := t_olmsessions t @ [(usr, session_id P session, pk)]\<rparr>)
             (database self))\<rparr>))"

definition store_inbound_group_session ::
  "('acc, 'sess, 'gs) provider \<Rightarrow> ('acc, 'sess, 'gs) olm \<Rightarrow> string \<Rightarrow> 'gs
   \<Rightarrow> (error + unit) \<times> ('acc, 'sess, 'gs) olm" where
  "store_inbound_group_session P self room_id session =
     (case group_session_pickle P session of
        Inl e \<Rightarrow> (Inl e, self)
      | Inr pk \<Rightarrow>
          (Inr (), self\<lparr>database := commit (execute
             (\<lambda>t. t\<lparr>t_inbound_group_sessions :=
                t_inbound_group_sessions t @ [(room_id, group_session_id P session, pk)]\<rparr>)
             (database self))\<rparr>))"

text \<open>
  \<^verbatim>\<open>_update_sessions_in_db\<close>: one \<^verbatim>\<open>update\<close> statement per session of every sender,
  and one \<^verbatim>\<open>commit()\<close> after the loops. A \<^verbatim>\<open>pickle()\<close> that raises leaves the
  statements executed so far uncommitted.
\<close>

fun update_session_rows ::
  "('acc, 'sess, 'gs) provider \<Rightarrow> string \<Rightarrow> 'sess list \<Rightarrow> database \<Rightarrow> (error + unit) \<times> database" where
  "update_session_rows P usr [] db = (Inr (), db)"
| "update_session_rows P usr (session # session_list) db =
     (case session_pickle P session of
        Inl e \<Rightarrow> (Inl e, db)
      | Inr pk \<Rightarrow>
          update_session_rows P usr session_list (execute
            (\<lambda>t. t\<lparr>t_olmsessions :=
               map (\<lambda>(u, sid, p). if u = usr \<and> sid = session_id P session then (u, sid, pk)
                                  else (u, sid, p)) (t_olmsessions t)\<rparr>) db))"

fun update_all_session_rows ::
  "('acc, 'sess, 'gs) provider \<Rightarrow> (string \<times> 'sess list) list \<Rightarrow> database \<Rightarrow> (error + unit) \<times> database" where
  "update_all_session_rows P [] db = (Inr (), db)"
| "update_all_session_rows P ((usr, session_list) # items) db =
     (case update_session_rows P usr session_list db of
        (Inl e, db') \<Rightarrow> (Inl e, db')
      | (Inr u, db') \<Rightarrow> update_all_session_rows P items db')"

definition update_sessions_in_db ::
  "('acc, 'sess, 'gs) provider \<Rightarrow> ('acc, 'sess, 'gs) olm \<Rightarrow> (error + unit) \<times> ('acc, 'sess, 'gs) olm" where
  "update_sessions_in_db P self =
     (case update_all_session_rows P (sessions self) (database self) of
        (Inl e, db') \<Rightarrow> (Inl e, self\<lparr>database := db'\<rparr>)
      | (Inr u, db') \<Rightarrow> (Inr (), self\<lparr>database := commit db'\<rparr>))"

subsection \<open>Construction\<close>

text \<open>
  \<^verbatim>\<open>Olm.__init__\<close>. The optional arguments are \<open>None\<close> when left out; an empty
  registry is falsy and replaced by a fresh empty one. With the flag off the decorated
  initialiser sets no attribute: the result is \<open>None\<close> here.
\<close>

definition Olm_init ::
  "bool \<Rightarrow> ('acc, 'sess, 'gs) provider \<Rightarrow> (string \<Rightarrow> tables) \<Rightarrow> string \<Rightarrow> string \<Rightarrow> string
   \<Rightarrow> database option \<Rightarrow> 'acc option \<Rightarrow> (string \<times> 'sess list) list option
   \<Rightarrow> (string \<times> (string \<times> 'gs) list) list option
   \<Rightarrow> error + ('acc, 'sess, 'gs) olm option" where
  "Olm_init ENCRYPTION P fs usr dev path db acc sess igs =
     encrypt_enabled ENCRYPTION (Inr None)
       (let db' = (case db of Some d \<Rightarrow> d | None \<Rightarrow> sqlite3_connect fs (db_path usr dev path));
            finish = (\<lambda>self. self\<lparr>
              sessions := (case sess of None \<Rightarrow> [] | Some d \<Rightarrow> if d = [] then [] else d),
              inbound_group_sessions := (case igs of None \<Rightarrow> [] | Some d \<Rightarrow> if d = [] then [] else d)\<rparr>);
            start = (\<lambda>a. \<lparr>user = usr, device_id = dev, session_path = path, database = db',
              device_keys = [], account = a, sessions = [], inbound_group_sessions = []\<rparr>)
        in case acc of
             Some a \<Rightarrow> Inr (Some (finish (start a)))
           | None \<Rightarrow>
               (case Account P of
                  Inl e \<Rightarrow> Inl e
                | Inr a \<Rightarrow>
                    (case insert_acc_to_db P (start a) of
                       (Inl e, self) \<Rightarrow> Inl e
                     | (Inr u, self) \<Rightarrow> Inr (Some (finish self)))))"

subsection \<open>Pairwise sessions\<close>

text \<open>
  \<^verbatim>\<open>_create_session\<close>. The third component of the result is what \<^verbatim>\<open>W.prnt\<close> wrote
  to the core buffer during the call.
\<close>

definition create_session ::
  "('acc, 'sess, 'gs) provider \<Rightarrow> ('acc, 'sess, 'gs) olm \<Rightarrow> string \<Rightarrow> string \<Rightarrow> message
   \<Rightarrow> (error + 'sess) \<times> ('acc, 'sess, 'gs) olm \<times> string list" where
  "create_session P self sender sender_key message =
     (let out1 = [''matrix: Creating session for '' @ sender] in
      case InboundSession P (account self) message sender_key of
        Inl e \<Rightarrow> (Inl e, self, out1)
      | Inr session \<Rightarrow>
          (let out2 = out1 @ [''matrix: Created session for '' @ sender];
               (session_list, d) = defaultdict_getitem [] (sessions self) sender;
               self1 = self\<lparr>sessions := AList.update sender (session_list @ [session]) d\<rparr>
           in case store_session P self1 sender session of
                (Inl e, self2) \<Rightarrow> (Inl e, self2, out2)
              | (Inr u, self2) \<Rightarrow>
                  (case account_remove_one_time_keys P (account self2) session of
                     Inl e \<Rightarrow> (Inl e, self2, out2)
                   | Inr acc \<Rightarrow>
                       (case update_acc_in_db P (self2\<lparr>account := acc\<rparr>) of
                          (Inl e, self3) \<Rightarrow> (Inl e, self3, out2)
                        | (Inr u, self3) \<Rightarrow> (Inr session, self3, out2)))))"

text \<open>
  The loop of \<^verbatim>\<open>decrypt\<close> over the sender's sessions. \<open>Inr (Some plaintext)\<close> is the
  \<^verbatim>\<open>return plaintext\<close> inside the loop, \<open>Inr None\<close> is the loop running to its end,
  \<open>Inl\<close> an exception other than \<^verbatim>\<open>OlmSessionError\<close>. The list returned holds the
  sessions after the call: a session that decrypted has advanced.
\<close>

fun decrypt_loop ::
  "('acc, 'sess, 'gs) provider \<Rightarrow> message \<Rightarrow> 'sess list \<Rightarrow> (error + string option) \<times> 'sess list" where
  "decrypt_loop P message [] = (Inr None, [])"
| "decrypt_loop P message (session # rest) =
     (let continue = (case decrypt_loop P message rest of (r, rest') \<Rightarrow> (r, session # rest'));
          attempt = (case session_decrypt P session message of
                       Inl e \<Rightarrow> if e = OlmSessionError then continue else (Inl e, session # rest)
                     | Inr (plaintext, session') \<Rightarrow> (Inr (Some plaintext), session' # rest))
      in if isinstance_OlmPreKeyMessage message
         then (case session_matches P session message of
                 Inl e \<Rightarrow> if e = OlmSessionError then continue else (Inl e, session # rest)
               | Inr matches \<Rightarrow> if \<not> matches then continue else attempt)
         else attempt)"

definition decrypt ::
  "bool \<Rightarrow> ('acc, 'sess, 'gs) provider \<Rightarrow> ('acc, 'sess, 'gs) olm \<Rightarrow> string \<Rightarrow> string \<Rightarrow> message
   \<Rightarrow> (error + string option) \<times> ('acc, 'sess, 'gs) olm \<times> string list" where
  "decrypt ENCRYPTION P self sender sender_key message =
     encrypt_enabled ENCRYPTION (Inr None, self, [])
       (let (session_list, d) = defaultdict_getitem [] (sessions self) sender;
            (r, session_list') = decrypt_loop P message session_list;
            self0 = self\<lparr>sessions := AList.update sender session_list' d\<rparr>
        in case r of
             Inl e \<Rightarrow> (Inl e, self0, [])
           | Inr (Some plaintext) \<Rightarrow> (Inr (Some plaintext), self0, [])
           | Inr None \<Rightarrow>
               (case create_session P self0 sender sender_key message of
                  (Inl e, self1, out) \<Rightarrow>
                    (if e = OlmSessionError then Inr None else Inl e, self1, out)
                | (Inr session, self1, out) \<Rightarrow>
                    (case session_decrypt P session message of
                       Inl e \<Rightarrow> (if e = OlmSessionError then Inr None else Inl e, self1, out)
                     | Inr (plaintext, session') \<Rightarrow>
                         (Inr (Some plaintext),
                          self1\<lparr>sessions :=
                            map (\<lambda>(u, l). if u = sender then (u, butlast l @ [session']) else (u, l))
                              (sessions self1)\<rparr>,
                          out))))"

subsection \<open>Group sessions\<close>

text \<open>\<^verbatim>\<open>create_group_session\<close> carries no decorator.\<close>

definition create_group_session ::
  "('acc, 'sess, 'gs) provider \<Rightarrow> ('acc, 'sess, 'gs) olm \<Rightarrow> string \<Rightarrow> string \<Rightarrow> string
   \<Rightarrow> (error + unit) \<times> ('acc, 'sess, 'gs) olm \<times> string list" where
  "create_group_session P self room_id sid session_key =
     (let out = [''matrix: Creating group session for '' @ room_id] in
      case InboundGroupSession P session_key of
        Inl e \<Rightarrow> (Inl e, self, out)
      | Inr session \<Rightarrow>
          (let (room, d) = defaultdict_getitem [] (inbound_group_sessions self) room_id;
               self1 = self\<lparr>inbound_group_sessions :=
                         AList.update room_id (AList.update sid session room) d\<rparr>
           in case store_inbound_group_session P self1 room_id session of
                (r, self2) \<Rightarrow> (r, self2, out)))"

definition group_decrypt ::
  "bool \<Rightarrow> ('acc, 'sess, 'gs) provider \<Rightarrow> ('acc, 'sess, 'gs) olm \<Rightarrow> string \<Rightarrow> string \<Rightarrow> string
   \<Rightarrow> (error + string option) \<times> ('acc, 'sess, 'gs) olm" where
  "group_decrypt ENCRYPTION P self room_id sid ciphertext =
     encrypt_enabled ENCRYPTION (Inr None, self)
       (let (room, d) = defaultdict_getitem [] (inbound_group_sessions self) room_id;
            self1 = self\<lparr>inbound_group_sessions := d\<rparr>
        in case map_of room sid of
             None \<Rightarrow> (Inr None, self1)
           | Some session \<Rightarrow>
               (case group_session_decrypt P session ciphertext of
                  Inl e \<Rightarrow> (if e = OlmGroupSessionError then Inr None else Inl e, self1)
                | Inr (plaintext, session') \<Rightarrow>
                    (Inr (Some plaintext),
                     self1\<lparr>inbound_group_sessions :=
                       AList.update room_id (AList.update sid session' room) d\<rparr>)))"

subsection \<open>Loading and saving\<close>

fun load_sessions ::
  "('acc, 'sess, 'gs) provider \<Rightarrow> (string \<times> string) list \<Rightarrow> (string \<times> 'sess list) list
   \<Rightarrow> error + (string \<times> 'sess list) list" where
  "load_sessions P [] sess = Inr sess"
| "load_sessions P ((usr, pk) # db_sessions) sess =
     (let (session_list, d) = defaultdict_getitem [] sess usr in
      case session_from_pickle P pk of
        Inl e \<Rightarrow> Inl e
      | Inr session \<Rightarrow>
          load_sessions P db_sessions (AList.update usr (session_list @ [session]) d))"

fun load_inbound_group_sessions ::
  "('acc, 'sess, 'gs) provider \<Rightarrow> (string \<times> string) list \<Rightarrow> (string \<times> (string \<times> 'gs) list) list
   \<Rightarrow> error + (string \<times> (string \<times> 'gs) list) list" where
  "load_inbound_group_sessions P [] igs = Inr igs"
| "load_inbound_group_sessions P ((room_id, pk) # db_sessions) igs =
     (case group_session_from_pickle P pk of
        Inl e \<Rightarrow> Inl e
      | Inr session \<Rightarrow>
          (let (room, d) = defaultdict_getitem [] igs room_id in
           load_inbound_group_sessions P db_sessions
             (AList.update room_id (AList.update (group_session_id P session) session room) d)))"

text \<open>
  \<^verbatim>\<open>from_session_dir\<close>. \<^verbatim>\<open>fetchone()\<close> is \<^verbatim>\<open>None\<close> when the account table has no
  row of the user, and \<^verbatim>\<open>row[0]\<close> then raises. The handler names
  \<^verbatim>\<open>OlmAccountError\<close> and \<^verbatim>\<open>OlmSessionError\<close>.
\<close>

definition from_session_dir ::
  "bool \<Rightarrow> ('acc, 'sess, 'gs) provider \<Rightarrow> (string \<Rightarrow> tables) \<Rightarrow> string \<Rightarrow> string \<Rightarrow> string
   \<Rightarrow> error + ('acc, 'sess, 'gs) olm option" where
  "from_session_dir ENCRYPTION P fs usr dev path =
     encrypt_enabled ENCRYPTION (Inr None)
       (let db = sqlite3_connect fs (db_path usr dev path) in
        case filter (\<lambda>(u, p). u = usr) (t_olmaccount (pending db)) of
          [] \<Rightarrow> Inl TypeError
        | (u, acc_pickle) # others \<Rightarrow>
            (let db_sessions = map (\<lambda>(u, sid, p). (u, p)) (t_olmsessions (pending db));
                 db_inbound_group_sessions =
                   map (\<lambda>(r, sid, p). (r, p)) (t_inbound_group_sessions (pending db));
                 loaded =
                   (case account_from_pickle P acc_pickle of
                      Inl e \<Rightarrow> Inl e
                    | Inr acc \<Rightarrow>
                        (case load_sessions P db_sessions [] of
                           Inl e \<Rightarrow> Inl e
                         | Inr sess \<Rightarrow>
                             (case load_inbound_group_sessions P db_inbound_group_sessions [] of
                                Inl e \<Rightarrow> Inl e
                              | Inr igs \<Rightarrow>
                                  Olm_init ENCRYPTION P fs usr dev path
                                    (Some db) (Some acc) (Some sess) (Some igs))))
             in case loaded of
                  Inl e \<Rightarrow>
                    if e = OlmAccountError \<or> e = OlmSessionError then Inl (EncryptionError e)
                    else Inl e
                | Inr self \<Rightarrow> Inr self))"

text \<open>
  \<^verbatim>\<open>to_session_dir\<close> calls the two helpers below it. The module also defines
  \<^verbatim>\<open>_update_inbound_group_sessions\<close>, which nothing calls.
\<close>

definition to_session_dir ::
  "bool \<Rightarrow> ('acc, 'sess, 'gs) provider \<Rightarrow> ('acc, 'sess, 'gs) olm
   \<Rightarrow> (error + unit) \<times> ('acc, 'sess, 'gs) olm" where
  "to_session_dir ENCRYPTION P self =
     encrypt_enabled ENCRYPTION (Inr (), self)
       (let wrap = (\<lambda>e. if e = OlmAccountError then EncryptionError e else e) in
        case update_acc_in_db P self of
          (Inl e, self1) \<Rightarrow> (Inl (wrap e), self1)
        | (Inr u, self1) \<Rightarrow>
            (case update_sessions_in_db P self1 of
               (Inl e, self2) \<Rightarrow> (Inl (wrap e), self2)
             | (Inr u, self2) \<Rightarrow> (Inr (), self2)))"

subsection \<open>Signing and key publication\<close>

text \<open>
  \<^verbatim>\<open>sign_json\<close> carries no decorator. \<open>dumps\<close> is \<^verbatim>\<open>json.dumps\<close> with the options
  the call passes.
\<close>

definition sign_json ::
  "('acc, 'sess, 'gs) provider \<Rightarrow> ('j \<Rightarrow> string) \<Rightarrow> ('acc, 'sess, 'gs) olm \<Rightarrow> 'j \<Rightarrow> error + string" where
  "sign_json P dumps self json_dict = account_sign P (account self) (dumps json_dict)"

definition mark_keys_as_published ::
  "bool \<Rightarrow> ('acc, 'sess, 'gs) provider \<Rightarrow> ('acc, 'sess, 'gs) olm
   \<Rightarrow> (error + unit) \<times> ('acc, 'sess, 'gs) olm" where
  "mark_keys_as_published ENCRYPTION P self =
     encrypt_enabled ENCRYPTION (Inr (), self)
       (case account_mark_keys_as_published P (account self) of
          Inl e \<Rightarrow> (Inl e, self)
        | Inr acc \<Rightarrow> (Inr (), self\<lparr>account := acc\<rparr>))"

section \<open>A small provider for evaluating the operations\<close>

text \<open>
  An instance of the provider on which the operations can be run: an account is its
  number of unused one-time keys, a session is a key and the number of messages it has
  decrypted, and a session decrypts exactly the ciphertexts that start with its key. A
  pickle is the key, a bar and one mark per decrypted message; anything without a bar is
  rejected. Only a pre-key message creates an inbound session.
\<close>

definition ex_pickle :: "string \<times> nat \<Rightarrow> string" where
  "ex_pickle s = fst s @ ''|'' @ replicate (snd s) (CHR ''i'')"

definition ex_from_pickle :: "error \<Rightarrow> string \<Rightarrow> error + string \<times> nat" where
  "ex_from_pickle e pk =
     (if CHR ''|'' \<in> set pk
      then Inr (takeWhile (\<lambda>c. c \<noteq> CHR ''|'') pk,
                length (tl (dropWhile (\<lambda>c. c \<noteq> CHR ''|'') pk)))
      else Inl e)"

definition ex_decrypt :: "error \<Rightarrow> string \<times> nat \<Rightarrow> string \<Rightarrow> error + string \<times> string \<times> nat" where
  "ex_decrypt e s c =
     (if take (length (fst s)) c = fst s
      then Inr (drop (length (fst s)) c, (fst s, Suc (snd s)))
      else Inl e)"

fun ciphertext :: "message \<Rightarrow> string" where
  "ciphertext (OlmPreKeyMessage c) = c"
| "ciphertext (OlmMessage c) = c"

definition ex_provider :: "(nat, string \<times> nat, string \<times> nat) provider" where
  "ex_provider = \<lparr>
     Account = Inr 3,
     account_pickle = (\<lambda>a. Inr (replicate a (CHR ''k''))),
     account_from_pickle =
       (\<lambda>pk. if list_all (\<lambda>c. c = CHR ''k'') pk then Inr (length pk) else Inl OlmAccountError),
     account_remove_one_time_keys = (\<lambda>a s. Inr (a - 1)),
     account_mark_keys_as_published = (\<lambda>a. Inr a),
     account_sign = (\<lambda>a payload. Inr (''sig:'' @ payload)),
     InboundSession =
       (\<lambda>a m sender_key.
          if isinstance_OlmPreKeyMessage m \<and> 0 < a \<and> ciphertext m \<noteq> []
          then Inr (take 1 (ciphertext m), 0) else Inl OlmSessionError),
     session_id = fst,
     session_pickle = (\<lambda>s. Inr (ex_pickle s)),
     session_from_pickle = ex_from_pickle OlmSessionError,
     session_matches = (\<lambda>s m. Inr (take (length (fst s)) (ciphertext m) = fst s)),
     session_decrypt = (\<lambda>s m. ex_decrypt OlmSessionError s (ciphertext m)),
     InboundGroupSession = (\<lambda>k. if k = [] then Inl OlmGroupSessionError else Inr (k, 0)),
     group_session_id = fst,
     group_session_pickle = (\<lambda>s. Inr (ex_pickle s)),
     group_session_from_pickle = ex_from_pickle OlmGroupSessionError,
     group_session_decrypt = ex_decrypt OlmGroupSessionError\<rparr>"

text \<open>A manager of \<open>@alice\<close> over a given store, with given registries.\<close>

definition ex_store :: "(string \<times> string \<times> string) list \<Rightarrow> (string \<times> string \<times> string) list \<Rightarrow> tables" where
  "ex_store session_rows group_rows = \<lparr>t_olmaccount = [(''@alice'', ''kkk'')],
     t_olmsessions = session_rows, t_inbound_group_sessions = group_rows\<rparr>"

definition ex_tables :: tables where
  "ex_tables = ex_store [] []"

text \<open>The same provider, except that it builds an inbound session from any message.\<close>

definition ex_lenient :: "(nat, string \<times> nat, string \<times> nat) provider" where
  "ex_lenient = ex_provider\<lparr>InboundSession := (\<lambda>a m sender_key. Inr (take 1 (ciphertext m), 0))\<rparr>"

definition ex_olm ::
  "tables \<Rightarrow> (string \<times> (string \<times> nat) list) list \<Rightarrow> (string \<times> (string \<times> string \<times> nat) list) list
   \<Rightarrow> (nat, string \<times> nat, string \<times> nat) olm" where
  "ex_olm t sess igs = \<lparr>user = ''@alice'', device_id = ''DEV'', session_path = ''/tmp'',
     database = \<lparr>pending = t, committed = t\<rparr>, device_keys = [], account = 3,
     sessions = sess, inbound_group_sessions = igs\<rparr>"

section \<open>Properties of the fingerprint formatter\<close>

lemma grouper_length_each:
  "0 < n \<Longrightarrow> g \<in> set (grouper xs n f) \<Longrightarrow> length g = n"
proof (induction xs n f rule: grouper.induct)
  case (1 iterable n fillvalue)
  then show ?case
    by (subst (asm) (2) grouper.simps) (auto split: if_splits)
qed

lemma length_grouper:
  "0 < n \<Longrightarrow> length (grouper xs n f) = (length xs + n - 1) div n"
proof (induction xs n f rule: grouper.induct)
  case (1 iterable n fillvalue)
  show ?case
  proof (cases "iterable = []")
    case True
    with 1 show ?thesis by (simp add: grouper.simps)
  next
    case False
    have "length (grouper iterable n fillvalue) = Suc (length (grouper (drop n iterable) n fillvalue))"
      using False 1(2) by (subst grouper.simps) simp
    also have "\<dots> = Suc ((length iterable - n + n - 1) div n)"
      using 1 False by simp
    also have "\<dots> = (length iterable + n - 1) div n"
    proof (cases "n \<le> length iterable")
      case True
      then have "length iterable + n - 1 = (length iterable - n + n - 1) + n" using 1(2) by simp
      then show ?thesis using 1(2) by (metis div_add_self2 less_numeral_extra(3) Suc_eq_plus1)
    next
      case F: False
      then have "length iterable - n + n - 1 = n - 1" by simp
      moreover have "(length iterable + n - 1) div n = 1"
        using F False 1(2) by (intro div_nat_eqI) (cases iterable, auto)
      ultimately show ?thesis using 1(2) by simp
    qed
    finally show ?thesis .
  qed
qed

lemma concat_grouper:
  "0 < n \<Longrightarrow> concat (grouper xs n f) = xs @ replicate ((n - length xs mod n) mod n) f"
proof (induction xs n f rule: grouper.induct)
  case (1 iterable n fillvalue)
  show ?case
  proof (cases "iterable = []")
    case True
    with 1 show ?thesis by (simp add: grouper.simps)
  next
    case False
    show ?thesis
    proof (cases "n \<le> length iterable")
      case True
      then have m: "(length iterable - n) mod n = length iterable mod n"
        by (simp add: le_mod_geq)
      have "concat (grouper iterable n fillvalue) = take n iterable @ concat (grouper (drop n iterable) n fillvalue)"
        using False 1(2) True by (subst grouper.simps) simp
      then show ?thesis using 1 False m by simp 
    next
      case F: False
      then have "grouper (drop n iterable) n fillvalue = []" by (simp add: grouper.simps)
      then have "concat (grouper iterable n fillvalue) = iterable @ replicate (n - length iterable) fillvalue"
        using False 1(2) F by (subst grouper.simps) simp
      moreover have "(n - length iterable mod n) mod n = n - length iterable"
        using F False by simp
      ultimately show ?thesis by simp
    qed
  qed
qed

lemma length_join:
  "\<forall>g \<in> set gs. length g = n \<Longrightarrow> length (join [c] gs) = length gs * Suc n - 1"
  by (induction "[c]" gs rule: join.induct) auto

lemma nth_join:
  "\<forall>g \<in> set gs. length g = n \<Longrightarrow> i < length (join [c] gs) \<Longrightarrow>
   join [c] gs ! i = (if i mod Suc n = n then c else concat gs ! (i - i div Suc n))"
proof (induction "[c]" gs arbitrary: i rule: join.induct)
  case 1
  then show ?case by simp
next
  case (2 x)
  then show ?case by simp
next
  case (3 x y ys)
  have lx: "length x = n" using 3(2) by simp
  consider "i < n" | "i = n" | "n < i" by linarith
  then show ?case
  proof cases
    case 1
    then show ?thesis using lx by (simp add: nth_append)
  next
    case 2
    then show ?thesis using lx by (simp add: nth_append)
  next
    case 3
    define j where "j = i - Suc n"
    have i: "i = j + Suc n" using 3 by (simp add: j_def)
    have jl: "j < length (join [c] (y # ys))" using "3.prems"(2) lx i by simp
    have IH: "join [c] (y # ys) ! j =
       (if j mod Suc n = n then c else concat (y # ys) ! (j - j div Suc n))"
      using "3.hyps"[of j] "3.prems"(1) jl by simp
    have m: "i mod Suc n = j mod Suc n" unfolding i by (rule mod_add_self2)
    have d: "i div Suc n = Suc (j div Suc n)" unfolding i by (simp only: div_add_self2 nat.simps simp_thms Suc_eq_plus1[symmetric])
    have le: "j div Suc n \<le> j" by (rule div_le_dividend)
    have a: "(x @ [c] @ join [c] (y # ys)) ! i = join [c] (y # ys) ! j"
      using lx i by (simp add: nth_append)
    have b: "concat (x # y # ys) ! (i - i div Suc n) = concat (y # ys) ! (j - j div Suc n)"
    proof -
      define k where "k = j - j div Suc n"
      have "i - i div Suc n = n + k" using d le i by (simp add: k_def)
      then have "concat (x # y # ys) ! (i - i div Suc n) = (x @ concat (y # ys)) ! (length x + k)"
        using lx by simp
      also have "\<dots> = concat (y # ys) ! k" by (rule nth_append_length_plus)
      finally show ?thesis by (simp add: k_def)
    qed
    show ?thesis using a b IH m by simp
  qed
qed

lemma length_concat_same:
  "\<forall>g \<in> set gs. length g = n \<Longrightarrow> length (concat gs) = n * length gs"
  by (induction gs) auto

text \<open>
  C9. For every key, \<open>partition_key\<close> is the groups of \<open>grouper key 4 ' '\<close> joined by
  single spaces. There are \<open>\<lceil>length key / 4\<rceil>\<close> groups, each of four characters, and
  together they spell the key followed by the spaces that fill the last group. Read
  position by position: every fifth character of the result is a separating space and the
  others are the padded key in order. A key of 32 characters gives 8 groups and no padding;
  a key of 30 characters gives 8 groups, the last being its two final characters and two
  spaces.
\<close>

theorem partition_key_groups:
  "partition_key key = join '' '' (grouper key 4 (CHR '' ''))
   \<and> length (grouper key 4 (CHR '' '')) = (length key + 3) div 4
   \<and> (\<forall>g \<in> set (grouper key 4 (CHR '' '')). length g = 4)
   \<and> concat (grouper key 4 (CHR '' ''))
       = key @ replicate ((4 - length key mod 4) mod 4) (CHR '' '')
   \<and> length (partition_key key) = 5 * ((length key + 3) div 4) - 1
   \<and> (\<forall>i < length (partition_key key).
         partition_key key ! i =
           (if i mod 5 = 4 then CHR '' ''
            else (key @ replicate ((4 - length key mod 4) mod 4) (CHR '' '')) ! (i - i div 5)))
   \<and> (length key = 32 \<longrightarrow>
         length (grouper key 4 (CHR '' '')) = 8 \<and> concat (grouper key 4 (CHR '' '')) = key)
   \<and> (length key = 30 \<longrightarrow>
         length (grouper key 4 (CHR '' '')) = 8
         \<and> concat (grouper key 4 (CHR '' '')) = key @ ''  ''
         \<and> last (grouper key 4 (CHR '' '')) = drop 28 key @ ''  '')"
proof -
  let ?gs = "grouper key 4 (CHR '' '')"
  let ?pad = "key @ replicate ((4 - length key mod 4) mod 4) (CHR '' '')"
  have len: "length ?gs = (length key + 3) div 4"
    using length_grouper [of 4 key "CHR '' ''"] by simp
  have each: "\<forall>g \<in> set ?gs. length g = 4"
    by (auto dest: grouper_length_each [rotated])
  have cat: "concat ?gs = ?pad"
    using concat_grouper [of 4 key "CHR '' ''"] by simp
  have pk: "partition_key key = join [CHR '' ''] ?gs"
    by (simp add: partition_key_def)
  have plen: "length (partition_key key) = 5 * ((length key + 3) div 4) - 1"
    using length_join [OF each, of "CHR '' ''"] len pk by (simp add: mult.commute)
  have pnth: "\<forall>i < length (partition_key key).
         partition_key key ! i = (if i mod 5 = 4 then CHR '' '' else ?pad ! (i - i div 5))"
  proof (intro allI impI)
    fix i assume "i < length (partition_key key)"
    then have "i < length (join [CHR '' ''] ?gs)" using pk by simp
    from nth_join [OF each this] show
      "partition_key key ! i = (if i mod 5 = 4 then CHR '' '' else ?pad ! (i - i div 5))"
      using pk cat by simp
  qed
  have k32: "length key = 32 \<longrightarrow> length ?gs = 8 \<and> concat ?gs = key"
    using len cat by simp
  have r2: "replicate 2 (CHR '' '') = ''  ''" by (simp add: numeral_2_eq_2)
  have last30: "length key = 30 \<Longrightarrow> last ?gs = drop 28 key @ ''  ''"
  proof -
    assume l: "length key = 30"
    have ne: "?gs \<noteq> []" using len l by auto
    have l8: "length ?gs = 8" using len l by simp
    have "concat ?gs = concat (butlast ?gs) @ last ?gs"
      using ne by (metis append_butlast_last_id concat_append concat.simps append_Nil2)
    moreover have "length (concat (butlast ?gs)) = 28"
    proof -
      have "\<forall>g \<in> set (butlast ?gs). length g = 4" using each by (meson in_set_butlastD)
      then have "length (concat (butlast ?gs)) = 4 * length (butlast ?gs)"
        by (rule length_concat_same)
      then show ?thesis using l8 by simp
    qed
    ultimately have "last ?gs = drop 28 (concat ?gs)" by simp
    then show ?thesis using cat l by (simp add: r2)
  qed
  have k30: "length key = 30 \<longrightarrow> length ?gs = 8 \<and> concat ?gs = key @ ''  ''
      \<and> last ?gs = drop 28 key @ ''  ''"
  proof -
    show ?thesis using len cat last30 by (simp add: r2)
  qed
  show ?thesis using pk len each cat plen pnth k32 k30 by blast
qed

theorem partition_key_groups_witness:
  "length ''0123456789abcdefghijklmnopqrstuv'' = 32
   \<and> partition_key ''0123456789abcdefghijklmnopqrstuv''
       = ''0123 4567 89ab cdef ghij klmn opqr stuv''
   \<and> length ''0123456789abcdefghijklmnopqrst'' = 30
   \<and> partition_key ''0123456789abcdefghijklmnopqrst''
       = ''0123 4567 89ab cdef ghij klmn opqr st  ''
   \<and> last (grouper ''0123456789abcdefghijklmnopqrst'' 4 (CHR '' '')) = ''st  ''"
  using partition_key_groups [of "''0123456789abcdefghijklmnopqrstuv''"]
        partition_key_groups [of "''0123456789abcdefghijklmnopqrst''"]
  by (simp add: partition_key_def grouper.simps)

section \<open>Properties of pairwise decryption\<close>

lemma decrypt_loop_skips:
  assumes "\<forall>x \<in> set pre.
       (if isinstance_OlmPreKeyMessage message
        then session_matches P x message = Inr False
             \<or> session_matches P x message = Inl OlmSessionError
             \<or> (session_matches P x message = Inr True
                 \<and> session_decrypt P x message = Inl OlmSessionError)
        else session_decrypt P x message = Inl OlmSessionError)"
  shows "decrypt_loop P message (pre @ rest) =
           (case decrypt_loop P message rest of (r, rest') \<Rightarrow> (r, pre @ rest'))"
  using assms
proof (induction pre)
  case Nil
  then show ?case by (simp split: prod.splits)
next
  case (Cons x pre)
  then have IH: "decrypt_loop P message (pre @ rest) =
           (case decrypt_loop P message rest of (r, rest') \<Rightarrow> (r, pre @ rest'))"
    by simp
  from Cons.prems have hx:
      "(if isinstance_OlmPreKeyMessage message
        then session_matches P x message = Inr False
             \<or> session_matches P x message = Inl OlmSessionError
             \<or> (session_matches P x message = Inr True
                 \<and> session_decrypt P x message = Inl OlmSessionError)
        else session_decrypt P x message = Inl OlmSessionError)"
    by simp
  show ?case
  proof (cases "isinstance_OlmPreKeyMessage message")
    case True
    with hx show ?thesis
      by (auto simp: IH Let_def split: prod.splits)
  next
    case False
    with hx show ?thesis
      by (auto simp: IH Let_def split: prod.splits)
  qed
qed

lemma decrypt_loop_hit:
  assumes "isinstance_OlmPreKeyMessage message \<longrightarrow> session_matches P s message = Inr True"
    and "session_decrypt P s message = Inr (plaintext, s')"
  shows "decrypt_loop P message (s # post) = (Inr (Some plaintext), s' # post)"
  using assms by (simp add: Let_def)

lemma decrypt_existing_session:
  assumes "map_of (sessions self) sender = Some session_list"
    and "decrypt_loop P message session_list = (Inr (Some plaintext), session_list')"
  shows "decrypt True P self sender sender_key message =
           (Inr (Some plaintext),
            self\<lparr>sessions := AList.update sender session_list' (sessions self)\<rparr>, [])"
  using assms by (simp add: decrypt_def encrypt_enabled_def defaultdict_getitem_def)

text \<open>
  C1. \<open>decrypt\<close> walks the sender's sessions in list order, the order of creation.
  Let the list be \<open>pre @ s # post\<close>, where every session of \<open>pre\<close> is passed over
  (for an ordinary message its decryption raises \<open>OlmSessionError\<close>; for a pre-key
  message it does not match, or the match or the decryption raises \<open>OlmSessionError\<close>),
  and \<open>s\<close> is attempted and decrypts. Then the error of each earlier session is swallowed,
  the plaintext returned is the one of \<open>s\<close>, which is left advanced in the registry, and
  the sessions of \<open>post\<close> are not touched, whatever they would have done with the
  message. Nothing else changes and no session is created.
\<close>

theorem decrypt_first_success:
  assumes "map_of (sessions self) sender = Some (pre @ s # post)"
    and "\<forall>x \<in> set pre.
       (if isinstance_OlmPreKeyMessage message
        then session_matches P x message = Inr False
             \<or> session_matches P x message = Inl OlmSessionError
             \<or> (session_matches P x message = Inr True
                 \<and> session_decrypt P x message = Inl OlmSessionError)
        else session_decrypt P x message = Inl OlmSessionError)"
    and "isinstance_OlmPreKeyMessage message \<longrightarrow> session_matches P s message = Inr True"
    and "session_decrypt P s message = Inr (plaintext, s')"
  shows "decrypt True P self sender sender_key message =
           (Inr (Some plaintext),
            self\<lparr>sessions := AList.update sender (pre @ s' # post) (sessions self)\<rparr>, [])"
proof -
  have "decrypt_loop P message (pre @ s # post) = (Inr (Some plaintext), pre @ s' # post)"
    using decrypt_loop_skips [OF assms(2), of "s # post"] decrypt_loop_hit [OF assms(3,4), of post]
    by simp
  with assms(1) show ?thesis by (rule decrypt_existing_session)
qed


theorem decrypt_first_success_witness:
  "map_of (sessions (ex_olm ex_tables [(''@bob'', [(''a'', 0), (''b'', 0), (''bh'', 0)])] [])) ''@bob''
     = Some ([(''a'', 0)] @ (''b'', 0) # [(''bh'', 0)])
   \<and> session_decrypt ex_provider (''a'', 0) (OlmMessage ''bhello'') = Inl OlmSessionError
   \<and> session_decrypt ex_provider (''b'', 0) (OlmMessage ''bhello'') = Inr (''hello'', (''b'', 1))
   \<and> decrypt True ex_provider (ex_olm ex_tables [(''@bob'', [(''a'', 0), (''b'', 0), (''bh'', 0)])] [])
        ''@bob'' ''key'' (OlmMessage ''bhello'')
      = (Inr (Some ''hello''),
         ex_olm ex_tables [(''@bob'', [(''a'', 0), (''b'', 1), (''bh'', 0)])] [], [])"
proof -
  let ?self = "ex_olm ex_tables [(''@bob'', [(''a'', 0), (''b'', 0), (''bh'', 0)])] []"
  have h1: "map_of (sessions ?self) ''@bob'' = Some ([(''a'', 0)] @ (''b'', 0) # [(''bh'', 0)])"
    by (simp add: ex_olm_def)
  have h2: "\<forall>x \<in> set [(''a'', 0::nat)].
       (if isinstance_OlmPreKeyMessage (OlmMessage ''bhello'')
        then session_matches ex_provider x (OlmMessage ''bhello'') = Inr False
             \<or> session_matches ex_provider x (OlmMessage ''bhello'') = Inl OlmSessionError
             \<or> (session_matches ex_provider x (OlmMessage ''bhello'') = Inr True
                 \<and> session_decrypt ex_provider x (OlmMessage ''bhello'') = Inl OlmSessionError)
        else session_decrypt ex_provider x (OlmMessage ''bhello'') = Inl OlmSessionError)"
    by (simp add: ex_provider_def ex_decrypt_def)
  have h3: "isinstance_OlmPreKeyMessage (OlmMessage ''bhello'')
       \<longrightarrow> session_matches ex_provider (''b'', 0) (OlmMessage ''bhello'') = Inr True"
    by simp
  have h4: "session_decrypt ex_provider (''b'', 0) (OlmMessage ''bhello'') = Inr (''hello'', (''b'', 1))"
    by (simp add: ex_provider_def ex_decrypt_def)
  have h5: "session_decrypt ex_provider (''a'', 0) (OlmMessage ''bhello'') = Inl OlmSessionError"
    by (simp add: ex_provider_def ex_decrypt_def)
  show ?thesis
    using decrypt_first_success [OF h1 h2 h3 h4, of "''key''"] h1 h4 h5
    by (simp add: ex_olm_def)
qed

text \<open>
  C2, as the code has it. When \<open>decrypt\<close> succeeds with a session the sender already
  has, it returns the plaintext and leaves the store as it was, pending and committed
  tables alike: the advanced session is kept in the in-memory registry only, and nothing
  is printed.
\<close>

theorem decrypt_existing_session_store_untouched:
  assumes "map_of (sessions self) sender = Some session_list"
    and "decrypt_loop P message session_list = (Inr (Some plaintext), session_list')"
  shows "fst (decrypt True P self sender sender_key message) = Inr (Some plaintext)
         \<and> database (fst (snd (decrypt True P self sender sender_key message))) = database self
         \<and> map_of (sessions (fst (snd (decrypt True P self sender sender_key message)))) sender
             = Some session_list'
         \<and> snd (snd (decrypt True P self sender sender_key message)) = []"
  using decrypt_existing_session [OF assms, of sender_key]
  by (simp add: update_conv')

theorem decrypt_existing_session_store_untouched_witness:
  "map_of (sessions (ex_olm (ex_store [(''@bob'', ''b'', ''b|'')] []) [(''@bob'', [(''b'', 0)])] []))
      ''@bob'' = Some [(''b'', 0)]
   \<and> decrypt_loop ex_provider (OlmMessage ''bhello'') [(''b'', 0)] = (Inr (Some ''hello''), [(''b'', 1)])
   \<and> fst (decrypt True ex_provider
        (ex_olm (ex_store [(''@bob'', ''b'', ''b|'')] []) [(''@bob'', [(''b'', 0)])] [])
        ''@bob'' ''key'' (OlmMessage ''bhello'')) = Inr (Some ''hello'')
   \<and> database (fst (snd (decrypt True ex_provider
        (ex_olm (ex_store [(''@bob'', ''b'', ''b|'')] []) [(''@bob'', [(''b'', 0)])] [])
        ''@bob'' ''key'' (OlmMessage ''bhello''))))
       = database (ex_olm (ex_store [(''@bob'', ''b'', ''b|'')] []) [(''@bob'', [(''b'', 0)])] [])"
proof -
  let ?self = "ex_olm (ex_store [(''@bob'', ''b'', ''b|'')] []) [(''@bob'', [(''b'', 0)])] []"
  have h1: "map_of (sessions ?self) ''@bob'' = Some [(''b'', 0)]"
    by (simp add: ex_olm_def)
  have h2: "decrypt_loop ex_provider (OlmMessage ''bhello'') [(''b'', 0)]
      = (Inr (Some ''hello''), [(''b'', 1)])"
    by (simp add: ex_provider_def ex_decrypt_def)
  show ?thesis
    using decrypt_existing_session_store_untouched [OF h1 h2, of "''key''"] h1 h2
    by simp
qed

text \<open>
  C2 as stated fails: after a successful decryption with the existing session of
  \<open>@bob\<close> the registry holds the session advanced by one message, whose pickle is
  \<open>b|i\<close>, while the committed row still holds the pickle \<open>b|\<close> of the state before.
\<close>

theorem decrypt_persists_before_return_counterexample:
  "decrypt True ex_provider
     (ex_olm (ex_store [(''@bob'', ''b'', ''b|'')] []) [(''@bob'', [(''b'', 0)])] [])
     ''@bob'' ''key'' (OlmMessage ''bhello'')
   = (Inr (Some ''hello''),
      ex_olm (ex_store [(''@bob'', ''b'', ''b|'')] []) [(''@bob'', [(''b'', 1)])] [], [])
   \<and> session_pickle ex_provider (''b'', 0) = Inr ''b|''
   \<and> session_pickle ex_provider (''b'', 1) = Inr ''b|i''
   \<and> t_olmsessions (committed (database
         (ex_olm (ex_store [(''@bob'', ''b'', ''b|'')] []) [(''@bob'', [(''b'', 1)])] [])))
       = [(''@bob'', ''b'', ''b|'')]"
  by (simp add: decrypt_def encrypt_enabled_def defaultdict_getitem_def ex_olm_def ex_store_def
        ex_provider_def ex_decrypt_def ex_pickle_def)

subsection \<open>Dictionaries\<close>

lemma update_absent:
  "map_of d k = None \<Longrightarrow> AList.update k v d = d @ [(k, v)]"
  by (induction d) (auto split: if_splits)

lemma update_appended:
  "map_of d k = None \<Longrightarrow> AList.update k v (d @ [(k, w)]) = d @ [(k, v)]"
  by (induction d) (auto split: if_splits)

lemma map_of_appended:
  "map_of d k = None \<Longrightarrow> map_of (d @ [(k, w)]) k = Some w"
  by (simp add: map_add_def)

lemma map_entry_absent:
  "map_of d k = None \<Longrightarrow> map (\<lambda>(u, l). if u = k then (u, f l) else (u, l)) d = d"
  by (induction d) (auto split: if_splits)

lemma map_entry_update:
  "distinct (map fst d) \<Longrightarrow> map_of d k = Some w \<Longrightarrow>
   map (\<lambda>(u, l). if u = k then (u, f l) else (u, l)) (AList.update k v d) = AList.update k (f v) d"
proof (induction d)
  case Nil
  then show ?case by simp
next
  case (Cons p d)
  show ?case
  proof (cases "fst p = k")
    case True
    then have "map_of d k = None" using Cons.prems(1)
      by (cases p) (auto simp: map_of_eq_None_iff)
    then show ?thesis using True by (cases p) (simp add: map_entry_absent)
  next
    case False
    then show ?thesis using Cons by (cases p) auto
  qed
qed

lemma update_same:
  "map_of d k = Some v \<Longrightarrow> AList.update k v d = d"
  by (induction d) (auto split: if_splits)

lemma defaultdict_getitem_empty:
  "map_of d k = None \<or> map_of d k = Some dflt \<Longrightarrow>
   defaultdict_getitem dflt d k = (dflt, AList.update k dflt d)"
  by (auto simp: defaultdict_getitem_def update_absent update_same)

lemma map_of_update_same:
  "map_of (AList.update k v d) k = Some v"
  by (simp add: update_conv')

lemma distinct_update:
  "distinct (map fst d) \<Longrightarrow> distinct (map fst (AList.update k v d))"
  by (simp add: distinct_update)

subsection \<open>Session creation\<close>

lemma decrypt_loop_none:
  "decrypt_loop P message session_list = (Inr None, session_list') \<Longrightarrow> session_list' = session_list"
proof (induction session_list arbitrary: session_list')
  case Nil
  then show ?case by simp
next
  case (Cons s rest)
  obtain r rest' where rec: "decrypt_loop P message rest = (r, rest')" by (cases "decrypt_loop P message rest")
  from Cons.prems rec have "r = Inr None \<and> session_list' = s # rest'"
    by (auto simp: Let_def split: if_splits sum.splits prod.splits)
  then show ?case using Cons.IH rec by simp
qed

lemma create_session_ok:
  assumes "InboundSession P (account self) message sender_key = Inr session"
    and "session_pickle P session = Inr pk"
    and "account_remove_one_time_keys P (account self) session = Inr acc"
    and "account_pickle P acc = Inr apk"
    and "defaultdict_getitem [] (sessions self) sender = (session_list, d)"
  shows "create_session P self sender sender_key message =
     (Inr session,
      self\<lparr>sessions := AList.update sender (session_list @ [session]) d,
           database :=
             \<lparr>pending = (pending (database self))\<lparr>
                t_olmsessions := t_olmsessions (pending (database self))
                                   @ [(sender, session_id P session, pk)],
                t_olmaccount := map (\<lambda>(u, p). if u = user self then (u, apk) else (u, p))
                                  (t_olmaccount (pending (database self)))\<rparr>,
              committed = (pending (database self))\<lparr>
                t_olmsessions := t_olmsessions (pending (database self))
                                   @ [(sender, session_id P session, pk)],
                t_olmaccount := map (\<lambda>(u, p). if u = user self then (u, apk) else (u, p))
                                  (t_olmaccount (pending (database self)))\<rparr>\<rparr>,
           account := acc\<rparr>,
      [''matrix: Creating session for '' @ sender, ''matrix: Created session for '' @ sender])"
  using assms
  by (simp add: create_session_def store_session_def update_acc_in_db_def execute_def commit_def)

lemma create_session_refused:
  assumes "InboundSession P (account self) message sender_key = Inl e"
  shows "create_session P self sender sender_key message =
     (Inl e, self, [''matrix: Creating session for '' @ sender])"
  using assms by (simp add: create_session_def)

text \<open>
  C3. Let the sender have no session (no entry, or an empty list), and let the provider
  build the inbound session \<open>session\<close> from the account and the message, pickle it,
  remove its one-time key from the account and pickle the account. Then \<open>decrypt\<close>
  announces and creates that one session, puts it at the end of the sender's (empty) list,
  appends exactly one row \<open>(sender, session id, pickle)\<close> to the session table, rewrites
  the pickle in the account rows of the user, commits, and decrypts once with the new
  session: when that succeeds the plaintext is returned and the registry holds the
  advanced session; when it raises \<open>OlmSessionError\<close> the result is \<open>None\<close>, with the
  session registered and stored all the same, and nothing further is tried.
\<close>

theorem decrypt_bootstraps_session:
  fixes P :: "('acc, 'sess, 'gs) provider"
  assumes "map_of (sessions self) sender = None \<or> map_of (sessions self) sender = Some []"
    and "distinct (map fst (sessions self))"
    and "InboundSession P (account self) message sender_key = Inr session"
    and "session_pickle P session = Inr pk"
    and "account_remove_one_time_keys P (account self) session = Inr acc"
    and "account_pickle P acc = Inr apk"
  shows "(\<forall>plaintext session'.
            session_decrypt P session message = Inr (plaintext, session') \<longrightarrow>
            decrypt True P self sender sender_key message =
              (Inr (Some plaintext),
               self\<lparr>sessions := AList.update sender [session'] (sessions self),
                    database :=
                      \<lparr>pending = (pending (database self))\<lparr>
                         t_olmsessions := t_olmsessions (pending (database self))
                                            @ [(sender, session_id P session, pk)],
                         t_olmaccount := map (\<lambda>(u, p). if u = user self then (u, apk) else (u, p))
                                           (t_olmaccount (pending (database self)))\<rparr>,
                       committed = (pending (database self))\<lparr>
                         t_olmsessions := t_olmsessions (pending (database self))
                                            @ [(sender, session_id P session, pk)],
                         t_olmaccount := map (\<lambda>(u, p). if u = user self then (u, apk) else (u, p))
                                           (t_olmaccount (pending (database self)))\<rparr>\<rparr>,
                    account := acc\<rparr>,
               [''matrix: Creating session for '' @ sender,
                ''matrix: Created session for '' @ sender]))
       \<and> (session_decrypt P session message = Inl OlmSessionError \<longrightarrow>
            decrypt True P self sender sender_key message =
              (Inr None,
               self\<lparr>sessions := AList.update sender [session] (sessions self),
                    database :=
                      \<lparr>pending = (pending (database self))\<lparr>
                         t_olmsessions := t_olmsessions (pending (database self))
                                            @ [(sender, session_id P session, pk)],
                         t_olmaccount := map (\<lambda>(u, p). if u = user self then (u, apk) else (u, p))
                                           (t_olmaccount (pending (database self)))\<rparr>,
                       committed = (pending (database self))\<lparr>
                         t_olmsessions := t_olmsessions (pending (database self))
                                            @ [(sender, session_id P session, pk)],
                         t_olmaccount := map (\<lambda>(u, p). if u = user self then (u, apk) else (u, p))
                                           (t_olmaccount (pending (database self)))\<rparr>\<rparr>,
                    account := acc\<rparr>,
               [''matrix: Creating session for '' @ sender,
                ''matrix: Created session for '' @ sender]))"
proof -
  let ?d = "AList.update sender [] (sessions self)"
  let ?self0 = "self\<lparr>sessions := ?d\<rparr>"
  have get: "defaultdict_getitem [] (sessions self) sender = ([], ?d)"
    using assms(1) by (rule defaultdict_getitem_empty)
  have dd: "distinct (map fst ?d)" using assms(2) by (rule distinct_update)
  have md: "map_of ?d sender = Some []" by (rule map_of_update_same)
  have get0: "defaultdict_getitem [] (sessions ?self0) sender = ([], ?d)"
    using md by (simp add: defaultdict_getitem_def)
  have cs: "create_session P ?self0 sender sender_key message =
     (Inr session,
      ?self0\<lparr>sessions := AList.update sender ([] @ [session]) ?d,
           database :=
             \<lparr>pending = (pending (database ?self0))\<lparr>
                t_olmsessions := t_olmsessions (pending (database ?self0))
                                   @ [(sender, session_id P session, pk)],
                t_olmaccount := map (\<lambda>(u, p). if u = user ?self0 then (u, apk) else (u, p))
                                  (t_olmaccount (pending (database ?self0)))\<rparr>,
              committed = (pending (database ?self0))\<lparr>
                t_olmsessions := t_olmsessions (pending (database ?self0))
                                   @ [(sender, session_id P session, pk)],
                t_olmaccount := map (\<lambda>(u, p). if u = user ?self0 then (u, apk) else (u, p))
                                  (t_olmaccount (pending (database ?self0)))\<rparr>\<rparr>,
           account := acc\<rparr>,
      [''matrix: Creating session for '' @ sender, ''matrix: Created session for '' @ sender])"
    by (rule create_session_ok) (use assms get0 in simp_all)
  have u1: "AList.update sender [session] ?d = AList.update sender [session] (sessions self)"
    by simp
  have u2: "\<And>f. map (\<lambda>(u, l). if u = sender then (u, f l) else (u, l))
                (AList.update sender [session] (sessions self))
              = AList.update sender (f [session]) (sessions self)"
  proof -
    fix f :: "'sess list \<Rightarrow> 'sess list"
    have "map (\<lambda>(u, l). if u = sender then (u, f l) else (u, l)) (AList.update sender [session] ?d)
          = AList.update sender (f [session]) ?d"
      using dd md by (rule map_entry_update)
    then show "map (\<lambda>(u, l). if u = sender then (u, f l) else (u, l))
                (AList.update sender [session] (sessions self))
              = AList.update sender (f [session]) (sessions self)"
      by simp
  qed
  show ?thesis
    using get cs u1 u2 [of "\<lambda>l. butlast l @ [_]"]
    by (auto simp: decrypt_def encrypt_enabled_def)
qed

theorem decrypt_bootstraps_session_witness:
  "map_of (sessions (ex_olm ex_tables [] [])) ''@bob'' = None
   \<and> InboundSession ex_provider (account (ex_olm ex_tables [] [])) (OlmPreKeyMessage ''bhello'') ''key''
       = Inr (''b'', 0)
   \<and> session_decrypt ex_provider (''b'', 0) (OlmPreKeyMessage ''bhello'') = Inr (''hello'', (''b'', 1))
   \<and> decrypt True ex_provider (ex_olm ex_tables [] []) ''@bob'' ''key'' (OlmPreKeyMessage ''bhello'')
       = (Inr (Some ''hello''),
          (ex_olm \<lparr>t_olmaccount = [(''@alice'', ''kk'')], t_olmsessions = [(''@bob'', ''b'', ''b|'')],
                   t_inbound_group_sessions = []\<rparr> [(''@bob'', [(''b'', 1)])] [])\<lparr>account := 2\<rparr>,
          [''matrix: Creating session for @bob'', ''matrix: Created session for @bob''])"
proof -
  let ?self = "ex_olm ex_tables [] []"
  have h1: "map_of (sessions ?self) ''@bob'' = None \<or> map_of (sessions ?self) ''@bob'' = Some []"
    by (simp add: ex_olm_def)
  have h2: "distinct (map fst (sessions ?self))" by (simp add: ex_olm_def)
  have h3: "InboundSession ex_provider (account ?self) (OlmPreKeyMessage ''bhello'') ''key''
       = Inr (''b'', 0)"
    by (simp add: ex_provider_def ex_olm_def)
  have h4: "session_pickle ex_provider (''b'', 0::nat) = Inr ''b|''"
    by (simp add: ex_provider_def ex_pickle_def)
  have h5: "account_remove_one_time_keys ex_provider (account ?self) (''b'', 0::nat) = Inr 2"
    by (simp add: ex_provider_def ex_olm_def)
  have h6: "account_pickle ex_provider 2 = Inr ''kk''"
    by (simp add: ex_provider_def numeral_2_eq_2)
  have h7: "session_decrypt ex_provider (''b'', 0) (OlmPreKeyMessage ''bhello'')
       = Inr (''hello'', (''b'', 1))"
    by (simp add: ex_provider_def ex_decrypt_def)
  have h8: "session_id ex_provider (''b'', 0::nat) = ''b''"
    by (simp add: ex_provider_def)
  show ?thesis
    using decrypt_bootstraps_session [OF h1 h2 h3 h4 h5 h6] h3 h7 h8
    by (simp add: ex_olm_def ex_tables_def ex_store_def)
qed

lemma defaultdict_getitem_present:
  "defaultdict_getitem dflt d k = (v, d') \<Longrightarrow> map_of d' k = Some v"
  by (auto simp: defaultdict_getitem_def map_add_def split: option.splits)

text \<open>
  C4, as the code has it. \<open>decrypt\<close> does not look at the kind of the message before it
  turns to \<open>_create_session\<close>: when the loop over the sender's sessions ends without a
  plaintext, the creation of a session is announced and asked of the provider, whatever
  the message is. When the provider refuses with \<open>OlmSessionError\<close>, the result is
  \<open>None\<close>; the store and the account are as before, no session is added, and the
  registry differs at most by the empty entry that looking the sender up has left.
\<close>

theorem decrypt_refused_message:
  assumes "decrypt_loop P message (fst (defaultdict_getitem [] (sessions self) sender))
             = (Inr None, session_list')"
    and "InboundSession P (account self) message sender_key = Inl OlmSessionError"
  shows "decrypt True P self sender sender_key message =
           (Inr None,
            self\<lparr>sessions := snd (defaultdict_getitem [] (sessions self) sender)\<rparr>,
            [''matrix: Creating session for '' @ sender])"
proof -
  obtain session_list d where get: "defaultdict_getitem [] (sessions self) sender = (session_list, d)"
    by (cases "defaultdict_getitem [] (sessions self) sender")
  have same: "session_list' = session_list"
    using assms(1) get by (simp add: decrypt_loop_none)
  have "map_of d sender = Some session_list" using get by (rule defaultdict_getitem_present)
  then have upd: "AList.update sender session_list d = d" by (rule update_same)
  have cs: "create_session P (self\<lparr>sessions := d\<rparr>) sender sender_key message =
     (Inl OlmSessionError, self\<lparr>sessions := d\<rparr>, [''matrix: Creating session for '' @ sender])"
    by (rule create_session_refused) (use assms(2) in simp)
  show ?thesis
    using assms(1) get same upd cs by (simp add: decrypt_def encrypt_enabled_def)
qed

theorem decrypt_refused_message_witness:
  "decrypt_loop ex_provider (OlmMessage ''bhello'')
      (fst (defaultdict_getitem [] (sessions (ex_olm ex_tables [(''@bob'', [(''a'', 0)])] [])) ''@bob''))
     = (Inr None, [(''a'', 0)])
   \<and> InboundSession ex_provider (account (ex_olm ex_tables [(''@bob'', [(''a'', 0)])] []))
        (OlmMessage ''bhello'') ''key'' = Inl OlmSessionError
   \<and> decrypt True ex_provider (ex_olm ex_tables [(''@bob'', [(''a'', 0)])] []) ''@bob'' ''key''
        (OlmMessage ''bhello'')
       = (Inr None, ex_olm ex_tables [(''@bob'', [(''a'', 0)])] [],
          [''matrix: Creating session for @bob''])"
proof -
  let ?self = "ex_olm ex_tables [(''@bob'', [(''a'', 0)])] []"
  have h1: "decrypt_loop ex_provider (OlmMessage ''bhello'')
      (fst (defaultdict_getitem [] (sessions ?self) ''@bob'')) = (Inr None, [(''a'', 0)])"
    by (simp add: ex_olm_def defaultdict_getitem_def ex_provider_def ex_decrypt_def)
  have h2: "InboundSession ex_provider (account ?self) (OlmMessage ''bhello'') ''key''
      = Inl OlmSessionError"
    by (simp add: ex_provider_def)
  show ?thesis
    using decrypt_refused_message [OF h1 h2] h1 h2
    by (simp add: ex_olm_def defaultdict_getitem_def)
qed

text \<open>
  C4 as stated fails. For an ordinary message and a sender without sessions the attempt to
  create a session is made and announced, although the provider then refuses; and with a
  provider that does not refuse, the same call registers a session, appends its row,
  rewrites the account row and returns a plaintext.
\<close>

theorem decrypt_no_bootstrap_counterexample:
  "decrypt True ex_provider (ex_olm ex_tables [] []) ''@bob'' ''key'' (OlmMessage ''bhello'')
     = (Inr None, ex_olm ex_tables [(''@bob'', [])] [], [''matrix: Creating session for @bob''])
   \<and> \<not> isinstance_OlmPreKeyMessage (OlmMessage ''bhello'')
   \<and> decrypt True ex_lenient (ex_olm ex_tables [] []) ''@bob'' ''key'' (OlmMessage ''bhello'')
     = (Inr (Some ''hello''),
        (ex_olm \<lparr>t_olmaccount = [(''@alice'', ''kk'')], t_olmsessions = [(''@bob'', ''b'', ''b|'')],
                 t_inbound_group_sessions = []\<rparr> [(''@bob'', [(''b'', 1)])] [])\<lparr>account := 2\<rparr>,
        [''matrix: Creating session for @bob'', ''matrix: Created session for @bob''])"
  by (simp add: decrypt_def encrypt_enabled_def defaultdict_getitem_def create_session_def
        store_session_def update_acc_in_db_def execute_def commit_def
        ex_olm_def ex_tables_def ex_store_def ex_lenient_def ex_provider_def ex_decrypt_def
        ex_pickle_def numeral_2_eq_2)

section \<open>Properties of group decryption\<close>

lemma group_decrypt_unregistered:
  assumes "Option.bind (map_of (inbound_group_sessions self) room_id) (\<lambda>room. map_of room sid) = None"
  shows "fst (group_decrypt True P self room_id sid ctext) = Inr None"
  using assms
  by (cases "map_of (inbound_group_sessions self) room_id")
     (simp_all add: group_decrypt_def encrypt_enabled_def defaultdict_getitem_def)

lemma group_decrypt_registered:
  assumes "Option.bind (map_of (inbound_group_sessions self) room_id) (\<lambda>room. map_of room sid)
             = Some session"
  shows "fst (group_decrypt True P self room_id sid ctext) =
           (case group_session_decrypt P session ctext of
              Inl e \<Rightarrow> if e = OlmGroupSessionError then Inr None else Inl e
            | Inr (plaintext, session') \<Rightarrow> Inr (Some plaintext))"
  using assms
  by (cases "map_of (inbound_group_sessions self) room_id")
     (auto simp: group_decrypt_def encrypt_enabled_def defaultdict_getitem_def
           split: sum.splits prod.splits)

lemma create_group_session_registers:
  assumes "InboundGroupSession P session_key = Inr session"
  shows "Option.bind (map_of (inbound_group_sessions
            (fst (snd (create_group_session P self room_id sid session_key)))) room_id)
            (\<lambda>room. map_of room sid) = Some session"
  using assms
  by (auto simp: create_group_session_def store_inbound_group_session_def defaultdict_getitem_def
        update_conv' Let_def split: option.splits sum.splits prod.splits)

lemma create_group_session_returns:
  assumes "InboundGroupSession P session_key = Inr session"
    and "group_session_pickle P session = Inr pk"
  shows "fst (create_group_session P self room_id sid session_key) = Inr ()"
  using assms
  by (auto simp: create_group_session_def store_inbound_group_session_def Let_def
        split: option.splits sum.splits prod.splits)

lemma map_of_update_keys:
  "map_of room sid = Some session \<Longrightarrow>
   (map_of (AList.update sid session' room) s = None) = (map_of room s = None)"
  by (auto simp: update_conv')

lemma group_decrypt_keys:
  "(Option.bind (map_of (inbound_group_sessions
        (snd (group_decrypt ENCRYPTION P self room_id sid ctext))) r)
      (\<lambda>room. map_of room s) = None)
   = (Option.bind (map_of (inbound_group_sessions self) r) (\<lambda>room. map_of room s) = None)"
proof (cases ENCRYPTION)
  case False
  then show ?thesis by (simp add: group_decrypt_def encrypt_enabled_def)
next
  case True
  show ?thesis
  proof (cases "map_of (inbound_group_sessions self) room_id")
    case None
    then show ?thesis using True
      by (cases "r = room_id")
         (auto simp: group_decrypt_def encrypt_enabled_def defaultdict_getitem_def map_add_def
               split: option.splits)
  next
    case (Some room)
    show ?thesis
    proof (cases "map_of room sid")
      case None
      then show ?thesis using True Some
        by (simp add: group_decrypt_def encrypt_enabled_def defaultdict_getitem_def)
    next
      case (Some session)
      note sess = this
      show ?thesis
      proof (cases "group_session_decrypt P session ctext")
        case (Inl e)
        then show ?thesis using True \<open>map_of (inbound_group_sessions self) room_id = Some room\<close> sess
          by (simp add: group_decrypt_def encrypt_enabled_def defaultdict_getitem_def)
      next
        case (Inr res)
        obtain plaintext session' where res: "res = (plaintext, session')" by (cases res)
        show ?thesis
          using True \<open>map_of (inbound_group_sessions self) room_id = Some room\<close> sess Inr res
          by (cases "r = room_id")
             (auto simp: group_decrypt_def encrypt_enabled_def defaultdict_getitem_def update_conv'
                   split: option.splits if_splits)
      qed
    qed
  qed
qed

lemma create_session_group_registry:
  "inbound_group_sessions (fst (snd (create_session P self sender sender_key message)))
     = inbound_group_sessions self"
  by (simp add: create_session_def store_session_def update_acc_in_db_def Let_def
        split: sum.splits prod.splits)

lemma decrypt_group_registry:
  "inbound_group_sessions (fst (snd (decrypt ENCRYPTION P self sender sender_key message)))
     = inbound_group_sessions self"
proof (cases ENCRYPTION)
  case False
  then show ?thesis by (simp add: decrypt_def encrypt_enabled_def)
next
  case True
  obtain session_list d where get: "defaultdict_getitem [] (sessions self) sender = (session_list, d)"
    by (cases "defaultdict_getitem [] (sessions self) sender")
  obtain r session_list' where loop: "decrypt_loop P message session_list = (r, session_list')"
    by (cases "decrypt_loop P message session_list")
  let ?self0 = "self\<lparr>sessions := AList.update sender session_list' d\<rparr>"
  obtain r1 self1 out where cs: "create_session P ?self0 sender sender_key message = (r1, self1, out)"
    by (cases "create_session P ?self0 sender sender_key message")
  have "inbound_group_sessions self1 = inbound_group_sessions ?self0"
    using create_session_group_registry [of P ?self0 sender sender_key message] cs by simp
  then show ?thesis
    using True get loop cs
    by (simp add: decrypt_def encrypt_enabled_def Let_def split: sum.splits option.splits prod.splits)
qed

text \<open>
  C5. With the flag on, \<open>group_decrypt\<close> returns \<open>None\<close> when no session is registered
  under the room and the session id; when one is registered, \<open>None\<close> when its
  decryption raises \<open>OlmGroupSessionError\<close> and the plaintext when it succeeds. Hence
  \<open>create_group_session\<close> with a key the provider accepts and can pickle, followed by
  \<open>group_decrypt\<close> under the same room and id of a ciphertext that session decrypts,
  returns the plaintext. Neither \<open>group_decrypt\<close> nor the pairwise \<open>decrypt\<close> registers
  a group session: the pairs of room and id with a session are the same after
  \<open>group_decrypt\<close>, and \<open>decrypt\<close> leaves the group registry as it is.
\<close>

theorem group_decrypt_lookup:
  "(Option.bind (map_of (inbound_group_sessions self) room_id) (\<lambda>room. map_of room sid) = None
      \<longrightarrow> fst (group_decrypt True P self room_id sid c) = Inr None)
   \<and> (\<forall>session.
         Option.bind (map_of (inbound_group_sessions self) room_id) (\<lambda>room. map_of room sid)
           = Some session
         \<and> group_session_decrypt P session c = Inl OlmGroupSessionError
         \<longrightarrow> fst (group_decrypt True P self room_id sid c) = Inr None)
   \<and> (\<forall>session plaintext session'.
         Option.bind (map_of (inbound_group_sessions self) room_id) (\<lambda>room. map_of room sid)
           = Some session
         \<and> group_session_decrypt P session c = Inr (plaintext, session')
         \<longrightarrow> fst (group_decrypt True P self room_id sid c) = Inr (Some plaintext))
   \<and> (\<forall>session pk plaintext session'.
         InboundGroupSession P session_key = Inr session
         \<and> group_session_pickle P session = Inr pk
         \<and> group_session_decrypt P session c = Inr (plaintext, session')
         \<longrightarrow> fst (create_group_session P self room_id sid session_key) = Inr ()
             \<and> fst (group_decrypt True P
                   (fst (snd (create_group_session P self room_id sid session_key)))
                   room_id sid c) = Inr (Some plaintext))
   \<and> (\<forall>r s.
         (Option.bind (map_of (inbound_group_sessions
              (snd (group_decrypt True P self room_id sid c))) r) (\<lambda>room. map_of room s) = None)
         = (Option.bind (map_of (inbound_group_sessions self) r) (\<lambda>room. map_of room s) = None))
   \<and> inbound_group_sessions (fst (snd (decrypt True P self sender sender_key message)))
       = inbound_group_sessions self"
proof (intro conjI allI impI)
  assume "Option.bind (map_of (inbound_group_sessions self) room_id) (\<lambda>room. map_of room sid) = None"
  then show "fst (group_decrypt True P self room_id sid c) = Inr None"
    by (rule group_decrypt_unregistered)
next
  fix session
  assume "Option.bind (map_of (inbound_group_sessions self) room_id) (\<lambda>room. map_of room sid)
           = Some session
         \<and> group_session_decrypt P session c = Inl OlmGroupSessionError"
  then show "fst (group_decrypt True P self room_id sid c) = Inr None"
    using group_decrypt_registered [of self room_id sid session P c] by simp
next
  fix session plaintext session'
  assume "Option.bind (map_of (inbound_group_sessions self) room_id) (\<lambda>room. map_of room sid)
           = Some session
         \<and> group_session_decrypt P session c = Inr (plaintext, session')"
  then show "fst (group_decrypt True P self room_id sid c) = Inr (Some plaintext)"
    using group_decrypt_registered [of self room_id sid session P c] by simp
next
  fix session pk plaintext session'
  assume h: "InboundGroupSession P session_key = Inr session
         \<and> group_session_pickle P session = Inr pk
         \<and> group_session_decrypt P session c = Inr (plaintext, session')"
  then have h1: "InboundGroupSession P session_key = Inr session"
    and h2: "group_session_pickle P session = Inr pk" by simp_all
  show "fst (create_group_session P self room_id sid session_key) = Inr ()"
    using h1 h2 by (rule create_group_session_returns)
  have "Option.bind (map_of (inbound_group_sessions
            (fst (snd (create_group_session P self room_id sid session_key)))) room_id)
            (\<lambda>room. map_of room sid) = Some session"
    using h1 by (rule create_group_session_registers)
  from group_decrypt_registered [OF this, of P c] h
  show "fst (group_decrypt True P
                   (fst (snd (create_group_session P self room_id sid session_key)))
                   room_id sid c) = Inr (Some plaintext)"
    by simp
next
  fix r s
  show "(Option.bind (map_of (inbound_group_sessions
              (snd (group_decrypt True P self room_id sid c))) r) (\<lambda>room. map_of room s) = None)
         = (Option.bind (map_of (inbound_group_sessions self) r) (\<lambda>room. map_of room s) = None)"
    by (rule group_decrypt_keys)
next
  show "inbound_group_sessions (fst (snd (decrypt True P self sender sender_key message)))
       = inbound_group_sessions self"
    by (rule decrypt_group_registry)
qed


theorem group_decrypt_lookup_witness:
  "InboundGroupSession ex_provider ''g'' = Inr (''g'', 0)
   \<and> group_session_pickle ex_provider (''g'', 0) = Inr ''g|''
   \<and> group_session_decrypt ex_provider (''g'', 0) ''ghello'' = Inr (''hello'', (''g'', 1))
   \<and> group_session_decrypt ex_provider (''g'', 0) ''xhello'' = Inl OlmGroupSessionError
   \<and> create_group_session ex_provider (ex_olm ex_tables [] []) ''!room'' ''g'' ''g''
       = (Inr (), ex_olm (ex_store [] [(''!room'', ''g'', ''g|'')]) [] [(''!room'', [(''g'', (''g'', 0))])],
          [''matrix: Creating group session for !room''])
   \<and> fst (group_decrypt True ex_provider
          (ex_olm (ex_store [] [(''!room'', ''g'', ''g|'')]) [] [(''!room'', [(''g'', (''g'', 0))])])
          ''!room'' ''g'' ''ghello'') = Inr (Some ''hello'')
   \<and> fst (group_decrypt True ex_provider
          (ex_olm (ex_store [] [(''!room'', ''g'', ''g|'')]) [] [(''!room'', [(''g'', (''g'', 0))])])
          ''!room'' ''g'' ''xhello'') = Inr None
   \<and> fst (group_decrypt True ex_provider
          (ex_olm (ex_store [] [(''!room'', ''g'', ''g|'')]) [] [(''!room'', [(''g'', (''g'', 0))])])
          ''!room'' ''unknown'' ''ghello'') = Inr None"
proof -
  let ?self = "ex_olm (ex_store [] [(''!room'', ''g'', ''g|'')]) [] [(''!room'', [(''g'', (''g'', 0::nat))])]"
  have h1: "InboundGroupSession ex_provider ''g'' = Inr (''g'', 0)"
    by (simp add: ex_provider_def)
  have h2: "group_session_pickle ex_provider (''g'', 0::nat) = Inr ''g|''"
    by (simp add: ex_provider_def ex_pickle_def)
  have h3: "group_session_decrypt ex_provider (''g'', 0) ''ghello'' = Inr (''hello'', (''g'', 1))"
    by (simp add: ex_provider_def ex_decrypt_def)
  have h4: "group_session_decrypt ex_provider (''g'', 0) ''xhello'' = Inl OlmGroupSessionError"
    by (simp add: ex_provider_def ex_decrypt_def)
  have h5: "create_group_session ex_provider (ex_olm ex_tables [] []) ''!room'' ''g'' ''g''
       = (Inr (), ?self, [''matrix: Creating group session for !room''])"
    by (simp add: create_group_session_def store_inbound_group_session_def defaultdict_getitem_def
          execute_def commit_def ex_olm_def ex_tables_def ex_store_def ex_provider_def ex_pickle_def)
  have h6: "Option.bind (map_of (inbound_group_sessions ?self) ''!room'') (\<lambda>room. map_of room ''g'')
       = Some (''g'', 0)"
    by (simp add: ex_olm_def)
  have h7: "Option.bind (map_of (inbound_group_sessions ?self) ''!room'')
       (\<lambda>room. map_of room ''unknown'') = None"
    by (simp add: ex_olm_def)
  show ?thesis
    using group_decrypt_lookup [of "ex_olm ex_tables [] []" "''!room''" "''g''" ex_provider
            "''ghello''" "''g''"]
          group_decrypt_lookup [of ?self "''!room''" "''g''" ex_provider "''ghello''"]
          group_decrypt_lookup [of ?self "''!room''" "''g''" ex_provider "''xhello''"]
          group_decrypt_lookup [of ?self "''!room''" "''unknown''" ex_provider "''ghello''"]
          h1 h2 h3 h4 h5 h6 h7
    by simp
qed

text \<open>
  C10. For a room with no group session, whether the registry has no entry for it or an
  empty one, \<open>group_decrypt\<close> returns \<open>None\<close> and raises nothing. The store, the
  account and the pairwise registry are unchanged; with the flag on, a room the registry
  did not know gains an empty entry at the end and every other entry is as before; in
  every other case nothing changes at all.
\<close>

theorem group_decrypt_unknown_room:
  assumes "map_of (inbound_group_sessions self) room_id = None
           \<or> map_of (inbound_group_sessions self) room_id = Some []"
  shows "group_decrypt ENCRYPTION P self room_id sid c =
           (Inr None,
            if ENCRYPTION \<and> map_of (inbound_group_sessions self) room_id = None
            then self\<lparr>inbound_group_sessions := inbound_group_sessions self @ [(room_id, [])]\<rparr>
            else self)"
  using assms
  by (auto simp: group_decrypt_def encrypt_enabled_def defaultdict_getitem_def)

theorem group_decrypt_unknown_room_witness:
  "map_of (inbound_group_sessions (ex_olm ex_tables [] [(''!other'', [(''g'', (''g'', 0))])])) ''!room''
     = None
   \<and> group_decrypt True ex_provider (ex_olm ex_tables [] [(''!other'', [(''g'', (''g'', 0))])])
        ''!room'' ''g'' ''ghello''
      = (Inr None, ex_olm ex_tables [] [(''!other'', [(''g'', (''g'', 0))]), (''!room'', [])])
   \<and> group_decrypt False ex_provider (ex_olm ex_tables [] [(''!other'', [(''g'', (''g'', 0))])])
        ''!room'' ''g'' ''ghello''
      = (Inr None, ex_olm ex_tables [] [(''!other'', [(''g'', (''g'', 0))])])"
proof -
  let ?self = "ex_olm ex_tables [] [(''!other'', [(''g'', (''g'', 0::nat))])]"
  have h: "map_of (inbound_group_sessions ?self) ''!room'' = None
           \<or> map_of (inbound_group_sessions ?self) ''!room'' = Some []"
    by (simp add: ex_olm_def)
  show ?thesis
    using group_decrypt_unknown_room [OF h, of True ex_provider "''g''" "''ghello''"]
          group_decrypt_unknown_room [OF h, of False ex_provider "''g''" "''ghello''"]
    by (simp add: ex_olm_def)
qed

section \<open>The switch, saving and loading\<close>

text \<open>
  C6. With the flag off the decorated operations do nothing and return \<open>None\<close>:
  \<open>decrypt\<close>, \<open>group_decrypt\<close>, \<open>to_session_dir\<close>, \<open>mark_keys_as_published\<close>,
  \<open>from_session_dir\<close> and the initialiser. \<open>create_group_session\<close> and \<open>sign_json\<close>
  carry no decorator and do not consult the flag: the first prints, registers the session
  and appends its row, the second signs.
\<close>

theorem switch_off_operations:
  "decrypt False P self sender sender_key message = (Inr None, self, [])
   \<and> group_decrypt False P self room_id sid c = (Inr None, self)
   \<and> to_session_dir False P self = (Inr (), self)
   \<and> mark_keys_as_published False P self = (Inr (), self)
   \<and> from_session_dir False P fs usr dev path = Inr None
   \<and> Olm_init False P fs usr dev path db acc sess igs = Inr None
   \<and> create_group_session ex_provider (ex_olm ex_tables [] []) ''!room'' ''g'' ''g''
       = (Inr (),
          ex_olm (ex_store [] [(''!room'', ''g'', ''g|'')]) [] [(''!room'', [(''g'', (''g'', 0))])],
          [''matrix: Creating group session for !room''])
   \<and> sign_json ex_provider dumps (ex_olm ex_tables [] []) json_dict
       = Inr (''sig:'' @ dumps json_dict)"
  by (simp add: decrypt_def group_decrypt_def to_session_dir_def mark_keys_as_published_def
        from_session_dir_def Olm_init_def encrypt_enabled_def sign_json_def
        create_group_session_def store_inbound_group_session_def defaultdict_getitem_def
        execute_def commit_def ex_olm_def ex_tables_def ex_store_def ex_provider_def ex_pickle_def)

text \<open>
  C7. \<open>to_session_dir\<close> rewrites the account row and the rows of the pairwise sessions,
  and nothing else. In the run below the manager holds a pairwise session and a group
  session that have each decrypted one message since they were stored. After saving and
  loading from the saved file the pairwise session comes back advanced, the group session
  comes back as it was stored: the advance of its ratchet is lost.
\<close>

theorem save_load_loses_group_advance:
  "group_decrypt True ex_provider
     (ex_olm (ex_store [(''@bob'', ''b'', ''b|'')] [(''!room'', ''g'', ''g|'')])
        [(''@bob'', [(''b'', 1)])] [(''!room'', [(''g'', (''g'', 0))])])
     ''!room'' ''g'' ''ghello''
   = (Inr (Some ''hello''),
      ex_olm (ex_store [(''@bob'', ''b'', ''b|'')] [(''!room'', ''g'', ''g|'')])
        [(''@bob'', [(''b'', 1)])] [(''!room'', [(''g'', (''g'', 1))])])
   \<and> to_session_dir True ex_provider
       (ex_olm (ex_store [(''@bob'', ''b'', ''b|'')] [(''!room'', ''g'', ''g|'')])
          [(''@bob'', [(''b'', 1)])] [(''!room'', [(''g'', (''g'', 1))])])
     = (Inr (),
        ex_olm (ex_store [(''@bob'', ''b'', ''b|i'')] [(''!room'', ''g'', ''g|'')])
          [(''@bob'', [(''b'', 1)])] [(''!room'', [(''g'', (''g'', 1))])])
   \<and> from_session_dir True ex_provider
       (\<lambda>path. committed (database
          (ex_olm (ex_store [(''@bob'', ''b'', ''b|i'')] [(''!room'', ''g'', ''g|'')])
             [(''@bob'', [(''b'', 1)])] [(''!room'', [(''g'', (''g'', 1))])])))
       ''@alice'' ''DEV'' ''/tmp''
     = Inr (Some
        (ex_olm (ex_store [(''@bob'', ''b'', ''b|i'')] [(''!room'', ''g'', ''g|'')])
          [(''@bob'', [(''b'', 1)])] [(''!room'', [(''g'', (''g'', 0))])]))"
  by (simp add: group_decrypt_def to_session_dir_def from_session_dir_def Olm_init_def
        encrypt_enabled_def update_acc_in_db_def update_sessions_in_db_def
        defaultdict_getitem_def sqlite3_connect_def
        execute_def commit_def ex_olm_def ex_store_def ex_provider_def ex_pickle_def
        ex_decrypt_def ex_from_pickle_def numeral_3_eq_3)

text \<open>
  C8. The handler of \<open>from_session_dir\<close> wraps \<open>OlmAccountError\<close> and
  \<open>OlmSessionError\<close> into \<open>EncryptionError\<close>. A group-session pickle that the provider
  rejects raises \<open>OlmGroupSessionError\<close>, which the handler does not name: the load fails
  with that error itself. A rejected account pickle and a rejected pairwise pickle are
  wrapped.
\<close>

theorem load_corrupt_group_pickle:
  "group_session_from_pickle ex_provider ''corrupt'' = Inl OlmGroupSessionError
   \<and> from_session_dir True ex_provider (\<lambda>path. ex_store [] [(''!room'', ''g'', ''corrupt'')])
        ''@alice'' ''DEV'' ''/tmp''
       = Inl OlmGroupSessionError
   \<and> from_session_dir True ex_provider (\<lambda>path. ex_store [(''@bob'', ''b'', ''corrupt'')] [])
        ''@alice'' ''DEV'' ''/tmp''
       = Inl (EncryptionError OlmSessionError)
   \<and> from_session_dir True ex_provider
        (\<lambda>path. (ex_store [] [])\<lparr>t_olmaccount := [(''@alice'', ''corrupt'')]\<rparr>)
        ''@alice'' ''DEV'' ''/tmp''
       = Inl (EncryptionError OlmAccountError)"
  by (simp add: from_session_dir_def Olm_init_def encrypt_enabled_def defaultdict_getitem_def
        sqlite3_connect_def ex_store_def ex_provider_def ex_from_pickle_def)

end
